theory Spec2Isabelle
  imports Complex_Main
begin

section \<open>Receive-side bandwidth estimation of aiortc (rate.py)\<close>

text \<open>
  The development embeds the classes of \<^verbatim>\<open>aiortc/rate.py\<close>: the inter-arrival filter,
  the over-use detector, the over-use estimator and the rate counter. Every class is a
  record, every method a function that takes the object and returns the updated object,
  and every Python exception a value of the type \<open>error\<close>.

  Numbers. Python integers are \<open>int\<close>. Python floats are modelled in exact arithmetic:
  a float is a \<open>real\<close>, and \<^verbatim>\<open>math.sqrt\<close> and \<^verbatim>\<open>pow\<close> are the real square root and
  power. With the constant of this file, \<open>TIMESTAMP_TO_MS = 125 / 2^23\<close>, and a 32-bit
  timestamp difference the product that the filter rounds has fewer than 53 significant
  bits, so the float computation of the source is exact there.
\<close>

subsection \<open>Exceptions and helpers\<close>

datatype error = TypeError | AttributeError | ZeroDivisionError | ValueError | IndexError

text \<open>Sequencing of computations that may raise.\<close>

definition bind_err :: "error + 'a \<Rightarrow> ('a \<Rightarrow> error + 'b) \<Rightarrow> error + 'b" where
  "bind_err m f = (case m of Inl e \<Rightarrow> Inl e | Inr x \<Rightarrow> f x)"

text \<open>Arithmetic on an attribute that is still \<^verbatim>\<open>None\<close> raises \<^verbatim>\<open>TypeError\<close>.\<close>

definition need :: "'a option \<Rightarrow> error + 'a" where
  "need v = (case v of None \<Rightarrow> Inl TypeError | Some x \<Rightarrow> Inr x)"

text \<open>Python's \<^verbatim>\<open>round\<close> with one argument: to the nearest integer, ties to the even one.\<close>

definition py_round :: "real \<Rightarrow> int" where
  "py_round x =
     (let f = \<lfloor>x\<rfloor>; d = x - of_int f
      in if d < 1 / 2 then f
         else if 1 / 2 < d then f + 1
         else if even f then f else f + 1)"

text \<open>
  Modelled from the spec: \<^verbatim>\<open>uint32_add\<close> and \<^verbatim>\<open>uint32_gt\<close> of \<^verbatim>\<open>aiortc/utils.py\<close>, which
  rate.py imports and which is not among the sources. The spec gives the sum as modular
  32-bit arithmetic and the comparison as
  \<^verbatim>\<open>modular_gt(a,b) := (a - b) mod 2^32 < 2^31\<close>.
\<close>

definition uint32_add :: "int \<Rightarrow> int \<Rightarrow> int" where
  "uint32_add a b = (a + b) mod 2 ^ 32"

definition uint32_gt :: "int \<Rightarrow> int \<Rightarrow> bool" where
  "uint32_gt a b = ((a - b) mod 2 ^ 32 < 2 ^ 31)"

subsection \<open>Constants\<close>

definition BURST_DELTA_THRESHOLD_MS :: int where
  "BURST_DELTA_THRESHOLD_MS = 5"

definition MAX_ADAPT_OFFSET_MS :: real where
  "MAX_ADAPT_OFFSET_MS = 15"

definition MIN_NUM_DELTAS :: int where
  "MIN_NUM_DELTAS = 60"

definition DELTA_COUNTER_MAX :: int where
  "DELTA_COUNTER_MAX = 1000"

definition MIN_FRAME_PERIOD_HISTORY_LENGTH :: nat where
  "MIN_FRAME_PERIOD_HISTORY_LENGTH = 60"

definition INTER_ARRIVAL_SHIFT :: nat where
  "INTER_ARRIVAL_SHIFT = 26"

definition TIMESTAMP_GROUP_LENGTH_MS :: int where
  "TIMESTAMP_GROUP_LENGTH_MS = 5"

definition TIMESTAMP_TO_MS :: real where
  "TIMESTAMP_TO_MS = 1000 / 2 ^ INTER_ARRIVAL_SHIFT"

datatype BandwidthUsage = NORMAL | UNDERUSING | OVERUSING

subsection \<open>InterArrival\<close>

text \<open>
  \<^verbatim>\<open>TimestampGroup.__init__(timestamp=None)\<close>: the arrival time starts unset, and so do
  both timestamps when the constructor is called without an argument.
\<close>

record TimestampGroup =
  arrival_time :: "int option"
  first_timestamp :: "int option"
  last_timestamp :: "int option"
  group_size :: int

definition TimestampGroup_init :: "int option \<Rightarrow> TimestampGroup" where
  "TimestampGroup_init timestamp =
     \<lparr>arrival_time = None, first_timestamp = timestamp, last_timestamp = timestamp,
      group_size = 0\<rparr>"

record InterArrivalDelta =
  delta_timestamp :: int
  delta_arrival_time :: int
  delta_size :: int

record InterArrival =
  group_length :: int
  timestamp_to_ms :: real
  current_group :: "TimestampGroup option"
  previous_group :: "TimestampGroup option"

definition InterArrival_init :: "int \<Rightarrow> real \<Rightarrow> InterArrival" where
  "InterArrival_init gl r =
     \<lparr>group_length = gl, timestamp_to_ms = r, current_group = None, previous_group = None\<rparr>"

text \<open>Reading an attribute of \<^verbatim>\<open>self.current_group\<close> while it is \<^verbatim>\<open>None\<close> raises.\<close>

definition the_group :: "TimestampGroup option \<Rightarrow> error + TimestampGroup" where
  "the_group g = (case g of None \<Rightarrow> Inl AttributeError | Some x \<Rightarrow> Inr x)"

definition packet_out_of_order :: "InterArrival \<Rightarrow> int \<Rightarrow> error + bool" where
  "packet_out_of_order ia timestamp =
     bind_err (the_group (current_group ia)) (\<lambda>cur.
     bind_err (need (first_timestamp cur)) (\<lambda>ft.
       let timestamp_delta = uint32_add timestamp (- ft)
       in Inr (timestamp_delta \<ge> 0x80000000)))"

definition belongs_to_burst :: "InterArrival \<Rightarrow> int \<Rightarrow> int \<Rightarrow> error + bool" where
  "belongs_to_burst ia timestamp arrival =
     bind_err (the_group (current_group ia)) (\<lambda>cur.
     bind_err (need (last_timestamp cur)) (\<lambda>lt.
       let timestamp_delta = uint32_add timestamp (- lt);
           timestamp_delta_ms = py_round (timestamp_to_ms ia * of_int timestamp_delta)
       in bind_err (need (arrival_time cur)) (\<lambda>cur_arrival.
            let arrival_time_delta = arrival - cur_arrival
            in Inr (timestamp_delta_ms = 0 \<or>
                    (arrival_time_delta - timestamp_delta_ms < 0 \<and>
                     arrival_time_delta \<le> BURST_DELTA_THRESHOLD_MS)))))"

definition new_timestamp_group :: "InterArrival \<Rightarrow> int \<Rightarrow> int \<Rightarrow> error + bool" where
  "new_timestamp_group ia timestamp arrival =
     bind_err (belongs_to_burst ia timestamp arrival) (\<lambda>burst.
       if burst then Inr False
       else bind_err (the_group (current_group ia)) (\<lambda>cur.
            bind_err (need (first_timestamp cur)) (\<lambda>ft.
              let timestamp_delta = uint32_add timestamp (- ft)
              in Inr (timestamp_delta > group_length ia))))"

text \<open>
  \<^verbatim>\<open>compute_deltas\<close>. The result is the returned value (\<^verbatim>\<open>None\<close> or a delta) with the
  object after the call. Every read that can raise comes before the first assignment of
  its branch, so an exception leaves the object as it was. \<open>finish\<close> is the common tail
  of the method: the size and arrival time of the current group.
\<close>

definition compute_deltas ::
  "InterArrival \<Rightarrow> int \<Rightarrow> int \<Rightarrow> int \<Rightarrow> error + (InterArrivalDelta option \<times> InterArrival)" where
  "compute_deltas ia timestamp arrival packet_size =
     (let finish = (\<lambda>deltas ia1.
            bind_err (the_group (current_group ia1)) (\<lambda>g.
              Inr (deltas,
                   ia1\<lparr>current_group :=
                         Some (g\<lparr>group_size := group_size g + packet_size,
                                 arrival_time := Some arrival\<rparr>)\<rparr>)))
      in case current_group ia of
           None \<Rightarrow>
             finish None (ia\<lparr>current_group := Some (TimestampGroup_init (Some timestamp))\<rparr>)
         | Some cur \<Rightarrow>
             bind_err (packet_out_of_order ia timestamp) (\<lambda>ooo.
               if ooo then Inr (None, ia)
               else bind_err (new_timestamp_group ia timestamp arrival) (\<lambda>new.
                 if new then
                   bind_err
                     (case previous_group ia of
                        None \<Rightarrow> Inr None
                      | Some prev \<Rightarrow>
                          bind_err (need (last_timestamp cur)) (\<lambda>cl.
                          bind_err (need (last_timestamp prev)) (\<lambda>pl.
                          bind_err (need (arrival_time cur)) (\<lambda>ca.
                          bind_err (need (arrival_time prev)) (\<lambda>pa.
                            Inr (Some \<lparr>delta_timestamp = uint32_add cl (- pl),
                                       delta_arrival_time = ca - pa,
                                       delta_size = group_size cur - group_size prev\<rparr>))))))
                     (\<lambda>deltas.
                        finish deltas
                          (ia\<lparr>previous_group := Some cur,
                              current_group := Some (TimestampGroup_init (Some timestamp))\<rparr>))
                 else
                   bind_err (need (last_timestamp cur)) (\<lambda>cl.
                     if uint32_gt timestamp cl
                     then finish None
                            (ia\<lparr>current_group := Some (cur\<lparr>last_timestamp := Some timestamp\<rparr>)\<rparr>)
                     else finish None ia))))"

text \<open>
  A sequence of calls on one object: the packets are (timestamp, arrival time, size), the
  result is the list of returned values with the final object. The first exception ends
  the run.
\<close>

fun feed ::
  "InterArrival \<Rightarrow> (int \<times> int \<times> int) list \<Rightarrow>
   error + (InterArrivalDelta option list \<times> InterArrival)" where
  "feed ia [] = Inr ([], ia)"
| "feed ia ((t, a, s) # ps) =
     bind_err (compute_deltas ia t a s) (\<lambda>(d, ia1).
     bind_err (feed ia1 ps) (\<lambda>(ds, ia2). Inr (d # ds, ia2)))"

text \<open>The inter-arrival filter as \<^verbatim>\<open>RemoteBitrateEstimator.__init__\<close> constructs it.\<close>

definition estimator_inter_arrival :: InterArrival where
  "estimator_inter_arrival =
     InterArrival_init
       ((TIMESTAMP_GROUP_LENGTH_MS * 2 ^ INTER_ARRIVAL_SHIFT) div 1000) TIMESTAMP_TO_MS"

text \<open>The attributes of a group that the filter reads are all set.\<close>

definition group_set :: "TimestampGroup \<Rightarrow> bool" where
  "group_set g \<longleftrightarrow>
     arrival_time g \<noteq> None \<and> first_timestamp g \<noteq> None \<and> last_timestamp g \<noteq> None"

definition groups_set :: "InterArrival \<Rightarrow> bool" where
  "groups_set ia \<longleftrightarrow>
     (case current_group ia of None \<Rightarrow> True | Some g \<Rightarrow> group_set g) \<and>
     (case previous_group ia of None \<Rightarrow> True | Some g \<Rightarrow> group_set g)"

text \<open>The values returned by a run, without the final object.\<close>

definition deltas_of ::
  "InterArrival \<Rightarrow> (int \<times> int \<times> int) list \<Rightarrow> error + InterArrivalDelta option list" where
  "deltas_of ia ps = bind_err (feed ia ps) (\<lambda>(ds, ia1). Inr ds)"

text \<open>
  The burst condition in the words of the specification: the timestamp delta in
  milliseconds is strictly less than the arrival delta. It is compared below with
  \<open>belongs_to_burst\<close>, the condition of the source.
\<close>

definition belongs_to_burst_spec :: "real \<Rightarrow> int \<Rightarrow> int \<Rightarrow> int \<Rightarrow> int \<Rightarrow> bool" where
  "belongs_to_burst_spec r last_ts cur_arrival timestamp arrival =
     (let timestamp_delta_ms = py_round (r * of_int ((timestamp - last_ts) mod 2 ^ 32));
          arrival_time_delta = arrival - cur_arrival
      in timestamp_delta_ms = 0 \<or>
         (timestamp_delta_ms < arrival_time_delta \<and> arrival_time_delta \<le> 5))"

text \<open>The filter of the estimator after one packet with timestamp 0 that arrived at 0 ms.\<close>

definition after_first_packet :: InterArrival where
  "after_first_packet =
     estimator_inter_arrival
       \<lparr>current_group :=
          Some \<lparr>arrival_time = Some 0, first_timestamp = Some 0, last_timestamp = Some 0,
                group_size = 100\<rparr>\<rparr>"

subsection \<open>OveruseDetector\<close>

record OveruseDetector =
  hypothesis :: BandwidthUsage
  last_update_ms :: "real option"
  k_up :: real
  k_down :: real
  overuse_counter :: int
  overuse_time :: "real option"
  overuse_time_threshold :: real
  det_previous_offset :: real
  threshold :: real

definition OveruseDetector_init :: OveruseDetector where
  "OveruseDetector_init =
     \<lparr>hypothesis = NORMAL, last_update_ms = None, k_up = 0.0087, k_down = 0.039,
      overuse_counter = 0, overuse_time = None, overuse_time_threshold = 10,
      det_previous_offset = 0, threshold = 12.5\<rparr>"

text \<open>
  \<^verbatim>\<open>update_threshold\<close>. The first \<^verbatim>\<open>if\<close> seeds \<^verbatim>\<open>last_update_ms\<close> and falls through: \<open>last\<close>
  is the value that \<^verbatim>\<open>self.last_update_ms\<close> has after it.
\<close>

definition update_threshold :: "OveruseDetector \<Rightarrow> real \<Rightarrow> real \<Rightarrow> OveruseDetector" where
  "update_threshold d modified_offset now_ms =
     (let last = (case last_update_ms d of None \<Rightarrow> now_ms | Some l \<Rightarrow> l);
          d1 = d\<lparr>last_update_ms := Some last\<rparr>
      in if \<bar>modified_offset\<bar> > threshold d1 + MAX_ADAPT_OFFSET_MS
         then d1\<lparr>last_update_ms := Some now_ms\<rparr>
         else
           let k = (if \<bar>modified_offset\<bar> < threshold d1 then k_down d1 else k_up d1);
               time_delta_ms = min (now_ms - last) 100;
               th = threshold d1 + k * (\<bar>modified_offset\<bar> - threshold d1) * time_delta_ms
           in d1\<lparr>threshold := max 6 (min th 600), last_update_ms := Some now_ms\<rparr>)"

definition detect ::
  "OveruseDetector \<Rightarrow> real \<Rightarrow> real \<Rightarrow> int \<Rightarrow> real \<Rightarrow> BandwidthUsage \<times> OveruseDetector" where
  "detect d offset timestamp_delta_ms num_of_deltas now_ms =
     (if num_of_deltas < 2 then (NORMAL, d)
      else
        let T = of_int (min num_of_deltas MIN_NUM_DELTAS) * offset;
            d1 =
              (if T > threshold d then
                 let ot = (case overuse_time d of
                             None \<Rightarrow> timestamp_delta_ms / 2
                           | Some t \<Rightarrow> t + timestamp_delta_ms);
                     d2 = d\<lparr>overuse_time := Some ot,
                            overuse_counter := overuse_counter d + 1\<rparr>
                 in if ot > overuse_time_threshold d2 \<and> overuse_counter d2 > 1 \<and>
                       offset \<ge> det_previous_offset d2
                    then d2\<lparr>overuse_counter := 0, overuse_time := Some 0,
                            hypothesis := OVERUSING\<rparr>
                    else d2
               else if T < - threshold d then
                 d\<lparr>overuse_counter := 0, overuse_time := None, hypothesis := UNDERUSING\<rparr>
               else
                 d\<lparr>overuse_counter := 0, overuse_time := None, hypothesis := NORMAL\<rparr>);
            d3 = update_threshold (d1\<lparr>det_previous_offset := offset\<rparr>) T now_ms
        in (hypothesis d3, d3))"

text \<open>A sequence of calls of the two mutating methods on one detector.\<close>

datatype detector_call =
  Detect real real int real
| UpdateThreshold real real

fun detector_step :: "OveruseDetector \<Rightarrow> detector_call \<Rightarrow> OveruseDetector" where
  "detector_step d (Detect offset timestamp_delta_ms num_of_deltas now_ms) =
     snd (detect d offset timestamp_delta_ms num_of_deltas now_ms)"
| "detector_step d (UpdateThreshold modified_offset now_ms) =
     update_threshold d modified_offset now_ms"

definition run_detector :: "detector_call list \<Rightarrow> OveruseDetector" where
  "run_detector calls = foldl detector_step OveruseDetector_init calls"

subsection \<open>OveruseEstimator\<close>

text \<open>
  The covariance \<^verbatim>\<open>self.E\<close> is a list of two lists of two numbers that the source only
  reads and writes at the constant indices 0 and 1: it is the four fields \<open>E00\<close>, \<open>E01\<close>,
  \<open>E10\<close>, \<open>E11\<close>. Likewise \<^verbatim>\<open>self.process_noise\<close> is the two fields \<open>process_noise0\<close> and
  \<open>process_noise1\<close>.
\<close>

record OveruseEstimator =
  E00 :: real
  E01 :: real
  E10 :: real
  E11 :: real
  est_num_of_deltas :: int
  est_offset :: real
  previous_offset :: real
  slope :: real
  ts_delta_hist :: "real list"
  avg_noise :: real
  var_noise :: real
  process_noise0 :: real
  process_noise1 :: real

definition OveruseEstimator_init :: OveruseEstimator where
  "OveruseEstimator_init =
     \<lparr>E00 = 100, E01 = 0, E10 = 0, E11 = 0.1,
      est_num_of_deltas = 0, est_offset = 0, previous_offset = 0, slope = 1 / 64,
      ts_delta_hist = [], avg_noise = 0, var_noise = 50,
      process_noise0 = 1 / 10 ^ 13, process_noise1 = 1 / 10 ^ 3\<rparr>"

definition update_min_frame_period ::
  "OveruseEstimator \<Rightarrow> real \<Rightarrow> real \<times> OveruseEstimator" where
  "update_min_frame_period e ts_delta =
     (let hist = (if length (ts_delta_hist e) \<ge> MIN_FRAME_PERIOD_HISTORY_LENGTH
                  then tl (ts_delta_hist e) else ts_delta_hist e);
          min_frame_period = foldl (\<lambda>m old_ts_delta. min old_ts_delta m) ts_delta hist
      in (min_frame_period, e\<lparr>ts_delta_hist := hist @ [ts_delta]\<rparr>))"

definition update_noise_estimate :: "OveruseEstimator \<Rightarrow> real \<Rightarrow> real \<Rightarrow> OveruseEstimator" where
  "update_noise_estimate e residual ts_delta =
     (let alpha = (if est_num_of_deltas e > 10 * 30 then 0.002 else 0.01);
          beta = (1 - alpha) powr (ts_delta * 30 / 1000);
          avg = beta * avg_noise e + (1 - beta) * residual;
          var = beta * var_noise e + (1 - beta) * (avg - residual) ^ 2
      in e\<lparr>avg_noise := avg, var_noise := (if var < 1 then 1 else var)\<rparr>)"

text \<open>
  \<^verbatim>\<open>update\<close>, in two parts. \<open>update_noise\<close> is the method up to the noise estimate: it
  returns the object with the measurement vector \<open>h\<close>, the product \<open>Eh\<close> and the residual.
  \<^verbatim>\<open>math.sqrt\<close> raises \<^verbatim>\<open>ValueError\<close> on a negative number.
\<close>

definition update_noise ::
  "OveruseEstimator \<Rightarrow> real \<Rightarrow> real \<Rightarrow> real \<Rightarrow> BandwidthUsage \<Rightarrow>
   error + (OveruseEstimator \<times> (real \<times> real) \<times> (real \<times> real) \<times> real)" where
  "update_noise e time_delta_ms timestamp_delta_ms size_delta current_hypothesis =
     (let (min_frame_period, e1) = update_min_frame_period e timestamp_delta_ms;
          t_ts_delta = time_delta_ms - timestamp_delta_ms;
          fs_delta = size_delta;
          e2 = e1\<lparr>est_num_of_deltas := min (est_num_of_deltas e1 + 1) DELTA_COUNTER_MAX\<rparr>;
          e3 = e2\<lparr>E00 := E00 e2 + process_noise0 e2, E11 := E11 e2 + process_noise1 e2\<rparr>;
          e4 = (if (current_hypothesis = OVERUSING \<and> est_offset e3 < previous_offset e3) \<or>
                   (current_hypothesis = UNDERUSING \<and> est_offset e3 > previous_offset e3)
                then e3\<lparr>E11 := E11 e3 + 10 * process_noise1 e3\<rparr> else e3);
          h = (fs_delta, 1);
          Eh = (E00 e4 * fst h + E01 e4 * snd h, E10 e4 * fst h + E11 e4 * snd h);
          residual = t_ts_delta - slope e4 * fst h - est_offset e4
      in if current_hypothesis = NORMAL then
           if var_noise e4 < 0 then Inl ValueError
           else
             let max_residual = 3 * sqrt (var_noise e4)
             in if \<bar>residual\<bar> < max_residual
                then Inr (update_noise_estimate e4 residual min_frame_period, h, Eh, residual)
                else Inr (update_noise_estimate e4
                            (if residual < 0 then - max_residual else max_residual)
                            min_frame_period, h, Eh, residual)
         else Inr (e4, h, Eh, residual))"

text \<open>The denominator of the Kalman gain, as \<^verbatim>\<open>update\<close> computes it after the noise estimate.\<close>

definition kalman_denom :: "OveruseEstimator \<Rightarrow> real \<times> real \<Rightarrow> real \<times> real \<Rightarrow> real" where
  "kalman_denom e h Eh = var_noise e + fst h * fst Eh + snd h * snd Eh"

text \<open>The whole method; a division by zero raises \<^verbatim>\<open>ZeroDivisionError\<close>.\<close>

definition update ::
  "OveruseEstimator \<Rightarrow> real \<Rightarrow> real \<Rightarrow> real \<Rightarrow> BandwidthUsage \<Rightarrow> real \<Rightarrow>
   error + OveruseEstimator" where
  "update e time_delta_ms timestamp_delta_ms size_delta current_hypothesis now_ms =
     bind_err (update_noise e time_delta_ms timestamp_delta_ms size_delta current_hypothesis)
       (\<lambda>(e5, h, Eh, residual).
          let denom = kalman_denom e5 h Eh
          in if denom = 0 then Inl ZeroDivisionError
             else
               let K = (fst Eh / denom, snd Eh / denom);
                   IKh00 = 1 - fst K * fst h;
                   IKh01 = - fst K * snd h;
                   IKh10 = - snd K * fst h;
                   IKh11 = 1 - snd K * snd h;
                   e00 = E00 e5;
                   e01 = E01 e5
               in Inr (e5\<lparr>E00 := e00 * IKh00 + E10 e5 * IKh01,
                           E01 := e01 * IKh00 + E11 e5 * IKh01,
                           E10 := e00 * IKh10 + E10 e5 * IKh11,
                           E11 := e01 * IKh10 + E11 e5 * IKh11,
                           previous_offset := est_offset e5,
                           slope := slope e5 + fst K * residual,
                           est_offset := est_offset e5 + snd K * residual\<rparr>))"

text \<open>
  A sequence of calls of \<^verbatim>\<open>update\<close> on one estimator; a call is (time delta, timestamp
  delta, size delta, hypothesis, now). The first exception ends the run.
\<close>

fun run_estimator ::
  "OveruseEstimator \<Rightarrow> (real \<times> real \<times> real \<times> BandwidthUsage \<times> real) list \<Rightarrow>
   error + OveruseEstimator" where
  "run_estimator e [] = Inr e"
| "run_estimator e ((td, tsd, sd, hyp, now) # calls) =
     (case update e td tsd sd hyp now of
        Inl err \<Rightarrow> Inl err
      | Inr e1 \<Rightarrow> run_estimator e1 calls)"

text \<open>Symmetry and positive semi-definiteness of the covariance.\<close>

definition E_symmetric :: "OveruseEstimator \<Rightarrow> bool" where
  "E_symmetric e \<longleftrightarrow> E01 e = E10 e"

definition E_quadratic_form :: "OveruseEstimator \<Rightarrow> real \<Rightarrow> real \<Rightarrow> real" where
  "E_quadratic_form e x y =
     x * (E00 e * x + E01 e * y) + y * (E10 e * x + E11 e * y)"

definition E_positive_semidefinite :: "OveruseEstimator \<Rightarrow> bool" where
  "E_positive_semidefinite e \<longleftrightarrow> (\<forall>x y. 0 \<le> E_quadratic_form e x y)"

subsection \<open>RateCounter\<close>

record RateBucket =
  bucket_count :: int
  bucket_value :: int

definition RateBucket_init :: RateBucket where
  "RateBucket_init = \<lparr>bucket_count = 0, bucket_value = 0\<rparr>"

record RateCounter =
  rc_scale :: int
  window_size :: int
  buckets :: "RateBucket list"
  origin_index :: int
  origin_ms :: "int option"
  rc_total :: RateBucket

text \<open>Python list indexing: an index from \<open>- len\<close> to \<open>len - 1\<close>, or \<^verbatim>\<open>IndexError\<close>.\<close>

definition py_index :: "'a list \<Rightarrow> int \<Rightarrow> error + nat" where
  "py_index xs i =
     (let n = int (length xs); j = (if i < 0 then n + i else i)
      in if 0 \<le> j \<and> j < n then Inr (nat j) else Inl IndexError)"

definition reset :: "RateCounter \<Rightarrow> RateCounter" where
  "reset rc =
     rc\<lparr>buckets := replicate (nat (window_size rc)) RateBucket_init,
        origin_index := 0, origin_ms := None, rc_total := RateBucket_init\<rparr>"

definition RateCounter_init :: "int \<Rightarrow> int \<Rightarrow> RateCounter" where
  "RateCounter_init ws sc =
     reset \<lparr>rc_scale = sc, window_size = ws, buckets = [], origin_index = 0,
            origin_ms = None, rc_total = RateBucket_init\<rparr>"

text \<open>
  The loop of \<^verbatim>\<open>_erase_old\<close>: it runs while \<^verbatim>\<open>self._origin_ms < new_origin_ms\<close> and adds one
  to \<^verbatim>\<open>self._origin_ms\<close> in every round.
\<close>

function erase_old_loop :: "int \<Rightarrow> RateCounter \<Rightarrow> error + RateCounter" where
  "erase_old_loop new_origin_ms rc =
     (case origin_ms rc of
        None \<Rightarrow> Inl TypeError
      | Some orig \<Rightarrow>
          if orig < new_origin_ms then
            (case py_index (buckets rc) (origin_index rc) of
               Inl e \<Rightarrow> Inl e
             | Inr i \<Rightarrow>
                 let bucket = buckets rc ! i;
                     tot = rc_total rc
                 in if window_size rc = 0 then Inl ZeroDivisionError
                    else erase_old_loop new_origin_ms
                      (rc\<lparr>rc_total := \<lparr>bucket_count = bucket_count tot - bucket_count bucket,
                                     bucket_value = bucket_value tot - bucket_value bucket\<rparr>,
                          buckets := (buckets rc)[i := bucket\<lparr>bucket_count := 0,
                                                             bucket_value := 0\<rparr>],
                          origin_index := (origin_index rc + 1) mod window_size rc,
                          origin_ms := Some (orig + 1)\<rparr>))
          else Inr rc)"
  by pat_completeness auto
termination
  by (relation "measure (\<lambda>(new_origin_ms, rc).
        nat (new_origin_ms - (case origin_ms rc of None \<Rightarrow> new_origin_ms | Some orig \<Rightarrow> orig)))")
     auto

definition erase_old :: "RateCounter \<Rightarrow> int \<Rightarrow> error + RateCounter" where
  "erase_old rc now_ms =
     (let new_origin_ms = now_ms - window_size rc + 1
      in erase_old_loop new_origin_ms rc)"

definition rate :: "RateCounter \<Rightarrow> int \<Rightarrow> error + (int option \<times> RateCounter)" where
  "rate rc now_ms =
     (case origin_ms rc of
        None \<Rightarrow> Inr (None, rc)
      | Some orig \<Rightarrow>
          bind_err (erase_old rc now_ms) (\<lambda>rc1.
          bind_err (need (origin_ms rc1)) (\<lambda>orig1.
            let active_window_size = now_ms - orig1 + 1
            in if bucket_count (rc_total rc1) > 0 \<and> active_window_size > 1
               then Inr (Some (py_round (of_int (rc_scale rc1 * bucket_value (rc_total rc1)) /
                                         of_int active_window_size)), rc1)
               else Inr (None, rc1))))"

text \<open>
  A counter as the constructor and the methods leave it: a positive window, one bucket
  for every millisecond of the window, and the origin index inside the ring.
\<close>

definition counter_wf :: "RateCounter \<Rightarrow> bool" where
  "counter_wf rc \<longleftrightarrow>
     0 < window_size rc \<and> int (length (buckets rc)) = window_size rc \<and>
     0 \<le> origin_index rc \<and> origin_index rc < window_size rc"

subsection \<open>Invariants and example objects\<close>

text \<open>The threshold of a detector is inside its clamp.\<close>

definition threshold_in_range :: "OveruseDetector \<Rightarrow> bool" where
  "threshold_in_range d \<longleftrightarrow> 6 \<le> threshold d \<and> threshold d \<le> 600"

text \<open>
  The invariant of the estimator: the covariance is symmetric with non-negative diagonal
  and determinant, the noise variance is at least 1, the process noise is not negative.
\<close>

definition est_inv :: "OveruseEstimator \<Rightarrow> bool" where
  "est_inv e \<longleftrightarrow>
     E10 e = E01 e \<and> 0 \<le> E00 e \<and> 0 \<le> E11 e \<and> E01 e * E01 e \<le> E00 e * E11 e \<and>
     1 \<le> var_noise e \<and> 0 \<le> process_noise0 e \<and> 0 \<le> process_noise1 e"

text \<open>
  The estimator after the first statements of \<^verbatim>\<open>update\<close>: the history, the counter and
  the process noise added to the diagonal (\<open>update_noise_unfold\<close> below relates it to
  \<open>update_noise\<close>).
\<close>

definition inflate_covariance ::
  "OveruseEstimator \<Rightarrow> real \<Rightarrow> BandwidthUsage \<Rightarrow> OveruseEstimator" where
  "inflate_covariance e timestamp_delta_ms current_hypothesis =
     (let e1 = snd (update_min_frame_period e timestamp_delta_ms);
          e2 = e1\<lparr>est_num_of_deltas := min (est_num_of_deltas e1 + 1) DELTA_COUNTER_MAX\<rparr>;
          e3 = e2\<lparr>E00 := E00 e2 + process_noise0 e2, E11 := E11 e2 + process_noise1 e2\<rparr>
      in if (current_hypothesis = OVERUSING \<and> est_offset e3 < previous_offset e3) \<or>
            (current_hypothesis = UNDERUSING \<and> est_offset e3 > previous_offset e3)
         then e3\<lparr>E11 := E11 e3 + 10 * process_noise1 e3\<rparr> else e3)"

text \<open>
  A counter with a window of 3 ms that was started at 10 ms and has received 100 at 10 ms
  and 50 at 11 ms.
\<close>

definition started_counter :: RateCounter where
  "started_counter =
     \<lparr>rc_scale = 8000, window_size = 3,
      buckets = [\<lparr>bucket_count = 1, bucket_value = 100\<rparr>,
                 \<lparr>bucket_count = 1, bucket_value = 50\<rparr>,
                 \<lparr>bucket_count = 0, bucket_value = 0\<rparr>],
      origin_index = 0, origin_ms = Some 10,
      rc_total = \<lparr>bucket_count = 2, bucket_value = 150\<rparr>\<rparr>"

section \<open>InterArrival: properties\<close>

lemmas inter_arrival_defs =
  compute_deltas_def packet_out_of_order_def new_timestamp_group_def belongs_to_burst_def
  bind_err_def need_def the_group_def TimestampGroup_init_def InterArrival_init_def

lemmas estimator_constants =
  estimator_inter_arrival_def TIMESTAMP_TO_MS_def TIMESTAMP_GROUP_LENGTH_MS_def
  INTER_ARRIVAL_SHIFT_def BURST_DELTA_THRESHOLD_MS_def

lemma compute_deltas_keeps_groups_set:
  assumes "groups_set ia"
  shows "\<exists>d ia1. compute_deltas ia t a s = Inr (d, ia1) \<and> groups_set ia1 \<and>
           current_group ia1 \<noteq> None \<and> timestamp_to_ms ia1 = timestamp_to_ms ia \<and>
           group_length ia1 = group_length ia"
  using assms
  by (auto simp add: inter_arrival_defs groups_set_def group_set_def Let_def
      split: option.splits)

lemma feed_keeps_groups_set:
  assumes "groups_set ia"
  shows "\<exists>ds ia1. feed ia ps = Inr (ds, ia1) \<and> groups_set ia1 \<and>
           (ps \<noteq> [] \<longrightarrow> current_group ia1 \<noteq> None) \<and>
           timestamp_to_ms ia1 = timestamp_to_ms ia \<and> group_length ia1 = group_length ia"
  using assms
proof (induction ps arbitrary: ia)
  case Nil
  then show ?case by simp
next
  case (Cons p ps)
  obtain t a s where p: "p = (t, a, s)" by (cases p)
  from compute_deltas_keeps_groups_set [OF Cons.prems, of t a s]
  obtain d ia1 where first:
    "compute_deltas ia t a s = Inr (d, ia1)" "groups_set ia1" "current_group ia1 \<noteq> None"
    "timestamp_to_ms ia1 = timestamp_to_ms ia" "group_length ia1 = group_length ia"
    by blast
  from Cons.IH [OF first(2)]
  obtain ds ia2 where rest:
    "feed ia1 ps = Inr (ds, ia2)" "groups_set ia2" "ps \<noteq> [] \<longrightarrow> current_group ia2 \<noteq> None"
    "timestamp_to_ms ia2 = timestamp_to_ms ia1" "group_length ia2 = group_length ia1"
    by blast
  have "ps = [] \<Longrightarrow> ia2 = ia1"
    using rest(1) by simp
  with first rest p show ?case
    by (cases "ps = []") (auto simp: bind_err_def)
qed

lemma groups_set_init: "groups_set (InterArrival_init gl r)"
  by (simp add: groups_set_def InterArrival_init_def)

lemma feed_first_packet:
  "feed estimator_inter_arrival [(0, 0, 100)] = Inr ([None], after_first_packet)"
  by (simp add: inter_arrival_defs after_first_packet_def estimator_inter_arrival_def)

text \<open>
  C3. On an object with a current group, a packet whose timestamp is out of order with
  respect to the first timestamp of that group (modular difference at least \<open>2^31\<close>) makes
  \<open>compute_deltas\<close> return none and leave the whole object as it was; the timestamp
  \<open>first_timestamp + 2^31\<close> is such a packet.
\<close>

theorem compute_deltas_out_of_order:
  assumes "current_group ia = Some g" and "first_timestamp g = Some ft"
  shows "(2 ^ 31 \<le> (timestamp - ft) mod 2 ^ 32 \<longrightarrow>
            compute_deltas ia timestamp arrival packet_size = Inr (None, ia)) \<and>
         compute_deltas ia (ft + 2 ^ 31) arrival packet_size = Inr (None, ia)"
  using assms by (simp add: inter_arrival_defs uint32_add_def)

theorem compute_deltas_out_of_order_witness:
  "current_group after_first_packet =
     Some \<lparr>arrival_time = Some 0, first_timestamp = Some 0, last_timestamp = Some 0,
           group_size = 100\<rparr> \<and>
   (2 :: int) ^ 31 \<le> (4294967040 - 0) mod 2 ^ 32 \<and>
   compute_deltas after_first_packet 4294967040 7 100 = Inr (None, after_first_packet) \<and>
   compute_deltas after_first_packet (0 + 2 ^ 31) 7 100 = Inr (None, after_first_packet)"
  using compute_deltas_out_of_order
    [where ia = after_first_packet and ft = 0 and timestamp = 4294967040 and arrival = 7
       and packet_size = 100
       and g = "\<lparr>arrival_time = Some 0, first_timestamp = Some 0, last_timestamp = Some 0,
                  group_size = 100\<rparr>"]
  by (simp add: after_first_packet_def)

text \<open>
  C1, as the source has it. After at least one packet the current group exists with its
  last timestamp and arrival time set, and \<open>belongs_to_burst\<close> is true exactly when the
  rounded timestamp delta in milliseconds is zero, or the arrival delta is strictly less
  than that timestamp delta and is at most 5 ms.
\<close>

theorem belongs_to_burst_iff:
  assumes "feed (InterArrival_init gl r) ps = Inr (ds, ia)" and "ps \<noteq> []"
  shows "\<exists>g lt ca. current_group ia = Some g \<and> last_timestamp g = Some lt \<and>
           arrival_time g = Some ca \<and>
           belongs_to_burst ia timestamp arrival =
             Inr (py_round (r * of_int ((timestamp - lt) mod 2 ^ 32)) = 0 \<or>
                  (arrival - ca < py_round (r * of_int ((timestamp - lt) mod 2 ^ 32)) \<and>
                   arrival - ca \<le> 5))"
proof -
  from feed_keeps_groups_set [OF groups_set_init, of gl r ps] assms
  have inv: "groups_set ia" "current_group ia \<noteq> None" "timestamp_to_ms ia = r"
    by (auto simp: InterArrival_init_def)
  then obtain g lt ca where g:
    "current_group ia = Some g" "last_timestamp g = Some lt" "arrival_time g = Some ca"
    by (auto simp: groups_set_def group_set_def)
  with inv(3) show ?thesis
    by (simp add: inter_arrival_defs uint32_add_def BURST_DELTA_THRESHOLD_MS_def Let_def)
qed

theorem belongs_to_burst_iff_witness:
  "feed (InterArrival_init 335544 (1000 / 2 ^ 26)) [(0, 0, 100)] = Inr ([None], after_first_packet) \<and>
   [(0, 0, 100)] \<noteq> ([] :: (int \<times> int \<times> int) list) \<and>
   belongs_to_burst after_first_packet 201216 2 = Inr True"
proof -
  have run: "feed (InterArrival_init 335544 (1000 / 2 ^ 26)) [(0, 0, 100)] =
      Inr ([None], after_first_packet)"
    using feed_first_packet by (simp add: estimator_constants)
  from belongs_to_burst_iff [OF run, of 201216 2]
  show ?thesis
    using run
    by (simp add: after_first_packet_def estimator_constants InterArrival_init_def
        py_round_def Let_def)
qed

text \<open>
  The condition of the specification (timestamp delta strictly less than the arrival
  delta) differs from the source: one packet has been received at 0 ms with timestamp 0,
  and the next one, sent about 3 ms later, arrives after 2 ms. The source says burst, the
  condition of the specification does not hold.
\<close>

theorem belongs_to_burst_spec_counterexample:
  "feed estimator_inter_arrival [(0, 0, 100)] = Inr ([None], after_first_packet) \<and>
   belongs_to_burst after_first_packet 201216 2 = Inr True \<and>
   \<not> belongs_to_burst_spec TIMESTAMP_TO_MS 0 0 201216 2"
  by (simp add: inter_arrival_defs after_first_packet_def estimator_constants
      belongs_to_burst_spec_def uint32_add_def py_round_def Let_def)

text \<open>
  C9. Whatever packets have been fed to a new filter, no call raises, and whenever a
  current group exists its arrival time and both its timestamps are set, so that
  \<open>packet_out_of_order\<close>, \<open>belongs_to_burst\<close>, \<open>new_timestamp_group\<close> and the next
  \<open>compute_deltas\<close> read no unset attribute.
\<close>

theorem compute_deltas_never_reads_unset:
  "\<exists>ds ia. feed (InterArrival_init gl r) ps = Inr (ds, ia) \<and>
      (ps \<noteq> [] \<longrightarrow> current_group ia \<noteq> None) \<and>
      (\<forall>g. current_group ia = Some g \<longrightarrow>
         arrival_time g \<noteq> None \<and> first_timestamp g \<noteq> None \<and> last_timestamp g \<noteq> None \<and>
         (\<exists>b. packet_out_of_order ia t = Inr b) \<and>
         (\<exists>b. belongs_to_burst ia t a = Inr b) \<and>
         (\<exists>b. new_timestamp_group ia t a = Inr b)) \<and>
      (\<exists>d ia1. compute_deltas ia t a s = Inr (d, ia1))"
proof -
  from feed_keeps_groups_set [OF groups_set_init, of gl r ps]
  obtain ds ia where run:
    "feed (InterArrival_init gl r) ps = Inr (ds, ia)" "groups_set ia"
    "ps \<noteq> [] \<longrightarrow> current_group ia \<noteq> None"
    by blast
  have reads:
    "arrival_time g \<noteq> None \<and> first_timestamp g \<noteq> None \<and> last_timestamp g \<noteq> None \<and>
     (\<exists>b. packet_out_of_order ia t = Inr b) \<and>
     (\<exists>b. belongs_to_burst ia t a = Inr b) \<and>
     (\<exists>b. new_timestamp_group ia t a = Inr b)"
    if "current_group ia = Some g" for g
    using that run(2)
    by (auto simp: groups_set_def group_set_def inter_arrival_defs Let_def)
  from compute_deltas_keeps_groups_set [OF run(2), of t a s]
  have "\<exists>d ia1. compute_deltas ia t a s = Inr (d, ia1)"
    by blast
  with run reads show ?thesis
    by blast
qed

theorem compute_deltas_never_reads_unset_witness:
  "\<exists>ds ia. feed (InterArrival_init 335544 (1000 / 2 ^ 26)) [(0, 0, 100)] = Inr (ds, ia) \<and>
      [(0, 0, 100)] \<noteq> ([] :: (int \<times> int \<times> int) list) \<and>
      (\<exists>g. current_group ia = Some g \<and> arrival_time g \<noteq> None \<and>
         (\<exists>b. new_timestamp_group ia 402688 6 = Inr b))"
  using compute_deltas_never_reads_unset
    [of 335544 "1000 / 2 ^ 26" "[(0, 0, 100)]" 402688 6 100]
  by fastforce

text \<open>
  C2, as the source has it. On a new filter one packet returns no delta, and neither do
  any two packets, since no previous group exists before the third call. Three packets
  in increasing order whose timestamps span at most twice the group length (6 ms for the
  5 ms groups) return no delta either. Three packets each of which opens a new group
  (more than the group length after the packet before, in order, with a timestamp delta
  that does not round to zero and an arrival delta not below it) return exactly one
  delta, from the third call: the difference of the first two groups.
\<close>

theorem first_deltas:
  "deltas_of (InterArrival_init gl r) [(t1, a1, s1)] = Inr [None] \<and>
   deltas_of (InterArrival_init gl r) [(t1, a1, s1), (t2, a2, s2)] = Inr [None, None] \<and>
   (0 \<le> t1 \<and> t1 \<le> t2 \<and> t2 \<le> t3 \<and> t3 < 2 ^ 32 \<and> t3 - t1 \<le> 2 * gl \<longrightarrow>
      deltas_of (InterArrival_init gl r) [(t1, a1, s1), (t2, a2, s2), (t3, a3, s3)] =
        Inr [None, None, None]) \<and>
   (gl < (t2 - t1) mod 2 ^ 32 \<and> (t2 - t1) mod 2 ^ 32 < 2 ^ 31 \<and>
    gl < (t3 - t2) mod 2 ^ 32 \<and> (t3 - t2) mod 2 ^ 32 < 2 ^ 31 \<and>
    py_round (r * of_int ((t2 - t1) mod 2 ^ 32)) \<noteq> 0 \<and>
    py_round (r * of_int ((t2 - t1) mod 2 ^ 32)) \<le> a2 - a1 \<and>
    py_round (r * of_int ((t3 - t2) mod 2 ^ 32)) \<noteq> 0 \<and>
    py_round (r * of_int ((t3 - t2) mod 2 ^ 32)) \<le> a3 - a2 \<longrightarrow>
      deltas_of (InterArrival_init gl r) [(t1, a1, s1), (t2, a2, s2), (t3, a3, s3)] =
        Inr [None, None,
             Some \<lparr>delta_timestamp = (t2 - t1) mod 2 ^ 32, delta_arrival_time = a2 - a1,
                   delta_size = s2 - s1\<rparr>])"
proof (intro conjI impI)
  show "deltas_of (InterArrival_init gl r) [(t1, a1, s1)] = Inr [None]"
    by (simp add: deltas_of_def inter_arrival_defs)
  show "deltas_of (InterArrival_init gl r) [(t1, a1, s1), (t2, a2, s2)] = Inr [None, None]"
    by (simp add: deltas_of_def inter_arrival_defs Let_def)
next
  assume span: "0 \<le> t1 \<and> t1 \<le> t2 \<and> t2 \<le> t3 \<and> t3 < 2 ^ 32 \<and> t3 - t1 \<le> 2 * gl"
  then have "(t2 - t1) mod 2 ^ 32 = t2 - t1" "(t3 - t2) mod 2 ^ 32 = t3 - t2"
    "(t3 - t1) mod 2 ^ 32 = t3 - t1"
    by simp_all
  with span
  show "deltas_of (InterArrival_init gl r) [(t1, a1, s1), (t2, a2, s2), (t3, a3, s3)] =
      Inr [None, None, None]"
    by (simp add: deltas_of_def inter_arrival_defs Let_def uint32_add_def uint32_gt_def)
next
  assume "gl < (t2 - t1) mod 2 ^ 32 \<and> (t2 - t1) mod 2 ^ 32 < 2 ^ 31 \<and>
    gl < (t3 - t2) mod 2 ^ 32 \<and> (t3 - t2) mod 2 ^ 32 < 2 ^ 31 \<and>
    py_round (r * of_int ((t2 - t1) mod 2 ^ 32)) \<noteq> 0 \<and>
    py_round (r * of_int ((t2 - t1) mod 2 ^ 32)) \<le> a2 - a1 \<and>
    py_round (r * of_int ((t3 - t2) mod 2 ^ 32)) \<noteq> 0 \<and>
    py_round (r * of_int ((t3 - t2) mod 2 ^ 32)) \<le> a3 - a2"
  then
  show "deltas_of (InterArrival_init gl r) [(t1, a1, s1), (t2, a2, s2), (t3, a3, s3)] =
      Inr [None, None,
           Some \<lparr>delta_timestamp = (t2 - t1) mod 2 ^ 32, delta_arrival_time = a2 - a1,
                 delta_size = s2 - s1\<rparr>]"
    by (simp add: deltas_of_def inter_arrival_defs Let_def uint32_add_def)
qed

theorem first_deltas_witness:
  "(0 :: int) \<le> 0 \<and> (0 :: int) \<le> 201216 \<and> (201216 :: int) \<le> 402688 \<and>
   (402688 :: int) < 2 ^ 32 \<and> (402688 :: int) - 0 \<le> 2 * 335544 \<and>
   deltas_of (InterArrival_init 335544 (1000 / 2 ^ 26))
     [(0, 0, 100), (201216, 3, 120), (402688, 6, 100)] = Inr [None, None, None] \<and>
   (335544 :: int) < (402688 - 0) mod 2 ^ 32 \<and> (402688 - 0) mod 2 ^ 32 < (2 :: int) ^ 31 \<and>
   (335544 :: int) < (805376 - 402688) mod 2 ^ 32 \<and>
   (805376 - 402688) mod 2 ^ 32 < (2 :: int) ^ 31 \<and>
   py_round (1000 / 2 ^ 26 * of_int ((402688 - 0) mod 2 ^ 32)) = 6 \<and>
   py_round (1000 / 2 ^ 26 * of_int ((805376 - 402688) mod 2 ^ 32)) = 6 \<and>
   deltas_of (InterArrival_init 335544 (1000 / 2 ^ 26))
     [(0, 0, 100), (402688, 6, 120), (805376, 12, 100)] =
     Inr [None, None,
          Some \<lparr>delta_timestamp = 402688, delta_arrival_time = 6, delta_size = 20\<rparr>]"
  using
    first_deltas [where gl = 335544 and r = "1000 / 2 ^ 26" and ?t1.0 = 0 and ?a1.0 = 0
      and ?s1.0 = 100 and ?t2.0 = 201216 and ?a2.0 = 3 and ?s2.0 = 120
      and ?t3.0 = 402688 and ?a3.0 = 6 and ?s3.0 = 100]
    first_deltas [where gl = 335544 and r = "1000 / 2 ^ 26" and ?t1.0 = 0 and ?a1.0 = 0
      and ?s1.0 = 100 and ?t2.0 = 402688 and ?a2.0 = 6 and ?s2.0 = 120
      and ?t3.0 = 805376 and ?a3.0 = 12 and ?s3.0 = 100]
  by (simp add: py_round_def Let_def)

text \<open>
  Three packets of the estimator's filter whose send timestamps span 6 ms (0 ms, about
  3 ms and about 6 ms, each arriving at its send time): the third packet opens the second
  group, there is no previous group yet, and no delta is returned at all.
\<close>

theorem three_packets_6ms_counterexample:
  "py_round (TIMESTAMP_TO_MS * 201216) = 3 \<and> py_round (TIMESTAMP_TO_MS * 402688) = 6 \<and>
   deltas_of estimator_inter_arrival [(0, 0, 100), (201216, 3, 100), (402688, 6, 100)] =
     Inr [None, None, None]"
  by (simp add: deltas_of_def inter_arrival_defs estimator_constants Let_def uint32_add_def
      uint32_gt_def py_round_def)

section \<open>OveruseDetector: properties\<close>

lemma update_threshold_bounds:
  assumes "6 \<le> threshold d" and "threshold d \<le> 600"
  shows "6 \<le> threshold (update_threshold d m now) \<and>
         threshold (update_threshold d m now) \<le> 600"
  using assms by (simp add: update_threshold_def Let_def)

lemma update_threshold_range:
  assumes "threshold_in_range d"
  shows "threshold_in_range (update_threshold d m now)"
  using assms update_threshold_bounds [of d m now]
  by (simp add: threshold_in_range_def)

lemma detect_range:
  assumes "threshold_in_range d"
  shows "threshold_in_range (snd (detect d offset tsd n now))"
  using assms
  by (simp add: detect_def Let_def threshold_in_range_def update_threshold_bounds)

lemma detector_step_range:
  "threshold_in_range d \<Longrightarrow> threshold_in_range (detector_step d c)"
  by (cases c) (simp_all add: detect_range update_threshold_range)

lemma foldl_detector_step_range:
  "threshold_in_range d \<Longrightarrow> threshold_in_range (foldl detector_step d cs)"
  by (induction cs arbitrary: d) (simp_all add: detector_step_range)

lemma run_detector_range: "threshold_in_range (run_detector cs)"
  unfolding run_detector_def
  by (rule foldl_detector_step_range)
    (simp add: threshold_in_range_def OveruseDetector_init_def)

text \<open>
  C5. \<open>update_threshold\<close> with \<open>|modified_offset| > threshold + 15\<close>, on any detector, and
  \<open>update_threshold\<close> on any detector whose \<open>last_update_ms\<close> is still unset and whose
  threshold is inside the clamp \<open>[6, 600]\<close> (as it is on every detector that the constructor
  and the methods produce, whatever \<open>detect\<close> has written to the other attributes before
  it makes the call) both return the detector with \<open>last_update_ms\<close> set to \<open>now_ms\<close> and
  nothing else changed, the threshold included.
\<close>

theorem update_threshold_unchanged:
  "(threshold d + 15 < \<bar>m\<bar> \<longrightarrow>
      update_threshold d m now = d\<lparr>last_update_ms := Some now\<rparr>) \<and>
   (last_update_ms d = None \<and> 6 \<le> threshold d \<and> threshold d \<le> 600 \<longrightarrow>
      update_threshold d m now = d\<lparr>last_update_ms := Some now\<rparr>)"
proof (intro conjI impI)
  assume "threshold d + 15 < \<bar>m\<bar>"
  then show "update_threshold d m now = d\<lparr>last_update_ms := Some now\<rparr>"
    by (simp add: update_threshold_def Let_def MAX_ADAPT_OFFSET_MS_def)
next
  assume "last_update_ms d = None \<and> 6 \<le> threshold d \<and> threshold d \<le> 600"
  then show "update_threshold d m now = d\<lparr>last_update_ms := Some now\<rparr>"
    by (simp add: update_threshold_def Let_def)
qed

text \<open>
  The witness takes the skipping call on a new detector, and the first call as \<open>detect\<close>
  makes it: \<open>detect(1, 5, 20, 990)\<close> on a new detector has counted one over-use of 2.5 ms
  and stored the offset when it calls \<open>update_threshold(20, 990)\<close>, which adapts (20 is not
  above 12.5 + 15) with a time delta of 0.
\<close>

theorem update_threshold_unchanged_witness:
  "threshold OveruseDetector_init + 15 < \<bar>30\<bar> \<and>
   update_threshold OveruseDetector_init 30 1000 =
     OveruseDetector_init\<lparr>last_update_ms := Some 1000\<rparr> \<and>
   last_update_ms
     (OveruseDetector_init
        \<lparr>overuse_time := Some 2.5, overuse_counter := 1, det_previous_offset := 1\<rparr>) = None \<and>
   6 \<le> threshold
     (OveruseDetector_init
        \<lparr>overuse_time := Some 2.5, overuse_counter := 1, det_previous_offset := 1\<rparr>) \<and>
   threshold
     (OveruseDetector_init
        \<lparr>overuse_time := Some 2.5, overuse_counter := 1, det_previous_offset := 1\<rparr>) \<le> 600 \<and>
   \<not> threshold
     (OveruseDetector_init
        \<lparr>overuse_time := Some 2.5, overuse_counter := 1, det_previous_offset := 1\<rparr>) + 15
       < \<bar>20\<bar> \<and>
   update_threshold
     (OveruseDetector_init
        \<lparr>overuse_time := Some 2.5, overuse_counter := 1, det_previous_offset := 1\<rparr>) 20 990 =
     OveruseDetector_init
        \<lparr>overuse_time := Some 2.5, overuse_counter := 1, det_previous_offset := 1,
         last_update_ms := Some 990\<rparr> \<and>
   snd (detect OveruseDetector_init 1 5 20 990) =
     OveruseDetector_init
        \<lparr>overuse_time := Some 2.5, overuse_counter := 1, det_previous_offset := 1,
         last_update_ms := Some 990\<rparr>"
  using
    update_threshold_unchanged
      [where d = OveruseDetector_init and m = 30 and now = 1000]
    update_threshold_unchanged
      [where d = "OveruseDetector_init
          \<lparr>overuse_time := Some 2.5, overuse_counter := 1, det_previous_offset := 1\<rparr>"
         and m = 20 and now = 990]
  by (simp add: OveruseDetector_init_def detect_def Let_def MIN_NUM_DELTAS_def)

text \<open>
  C6. After every call of \<open>detect\<close>, with any arguments, on a detector that calls of
  \<open>detect\<close> and \<open>update_threshold\<close> have produced from a new one, the threshold is in
  \<open>[6, 600]\<close>.
\<close>

theorem detect_threshold_bounds:
  "6 \<le> threshold (snd (detect (run_detector calls) offset timestamp_delta_ms n now_ms)) \<and>
   threshold (snd (detect (run_detector calls) offset timestamp_delta_ms n now_ms)) \<le> 600"
  using detect_range [OF run_detector_range, of calls offset timestamp_delta_ms n now_ms]
  by (simp add: threshold_in_range_def)

theorem detect_threshold_bounds_witness:
  "6 \<le> threshold (snd (detect (run_detector [Detect 1 5 20 990]) 100 5 60 1000)) \<and>
   threshold (snd (detect (run_detector [Detect 1 5 20 990]) 100 5 60 1000)) \<le> 600"
  using detect_threshold_bounds [of "[Detect 1 5 20 990]" 100 5 60 1000]
  by simp

section \<open>OveruseEstimator: properties\<close>

text \<open>
  A symmetric 2 by 2 matrix with non-negative diagonal and determinant has a non-negative
  quadratic form.
\<close>

lemma psd2:
  fixes a b c x y :: real
  assumes "0 \<le> a" "0 \<le> c" "b * b \<le> a * c"
  shows "0 \<le> a * x * x + 2 * b * x * y + c * y * y"
proof (cases "a = 0")
  case True
  with assms have "b * b \<le> 0" by simp
  with zero_le_square [of b] have "b * b = 0" by linarith
  then have "b = 0" by simp
  have "0 \<le> c * (y * y)" using assms by simp
  with True \<open>b = 0\<close> show ?thesis by (simp add: mult.assoc)
next
  case False
  with assms have pos: "0 < a" by simp
  have "a * (a * x * x + 2 * b * x * y + c * y * y) = (a * x + b * y)\<^sup>2 + (a * c - b * b) * (y * y)"
    by (simp add: algebra_simps power2_eq_square)
  also have "\<dots> \<ge> 0" using assms by simp
  finally have "0 \<le> a * (a * x * x + 2 * b * x * y + c * y * y)" .
  with pos show ?thesis by (simp add: zero_le_mult_iff)
qed

lemma noise_estimate_inv:
  assumes "est_inv e"
  shows "est_inv (update_noise_estimate e res tsd)"
  using assms by (simp add: est_inv_def update_noise_estimate_def Let_def)

lemma noise_estimate_E:
  "E00 (update_noise_estimate e res tsd) = E00 e"
    "E01 (update_noise_estimate e res tsd) = E01 e"
    "E10 (update_noise_estimate e res tsd) = E10 e"
    "E11 (update_noise_estimate e res tsd) = E11 e"
  by (simp_all add: update_noise_estimate_def Let_def)

lemma inflate_inv:
  fixes a b c p q :: real
  assumes "0 \<le> a" "0 \<le> c" "b * b \<le> a * c" "0 \<le> p" "0 \<le> q"
  shows "b * b \<le> (a + p) * (c + q)"
proof -
  have "a * c \<le> (a + p) * (c + q)" using assms by (intro mult_mono) simp_all
  with assms show ?thesis by simp
qed

lemma inflate_est_inv:
  assumes "est_inv e"
  shows "est_inv (inflate_covariance e tsd hyp)"
proof -
  have 1: "E01 e * E01 e \<le> (E00 e + process_noise0 e) * (E11 e + process_noise1 e)"
    using assms inflate_inv[of "E00 e" "E11 e" "E01 e" "process_noise0 e" "process_noise1 e"]
    by (simp add: est_inv_def)
  have 2: "E01 e * E01 e \<le> (E00 e + process_noise0 e) * (E11 e + process_noise1 e + 10 * process_noise1 e)"
    using assms inflate_inv[of "E00 e" "E11 e" "E01 e" "process_noise0 e" "process_noise1 e + 10 * process_noise1 e"]
    by (simp add: est_inv_def add.assoc)
  show ?thesis
    using assms 1 2
    by (simp add: inflate_covariance_def est_inv_def update_min_frame_period_def Let_def)
qed

lemma update_noise_unfold:
  "update_noise e td tsd sd hyp =
    (let e4 = inflate_covariance e tsd hyp;
         mfp = fst (update_min_frame_period e tsd);
         residual = td - tsd - slope e4 * sd - est_offset e4;
         h = (sd, 1);
         Eh = (E00 e4 * sd + E01 e4, E10 e4 * sd + E11 e4)
     in if hyp = NORMAL then
           if var_noise e4 < 0 then Inl ValueError
           else if \<bar>residual\<bar> < 3 * sqrt (var_noise e4)
                then Inr (update_noise_estimate e4 residual mfp, h, Eh, residual)
                else Inr (update_noise_estimate e4
                            (if residual < 0 then - (3 * sqrt (var_noise e4)) else 3 * sqrt (var_noise e4))
                            mfp, h, Eh, residual)
         else Inr (e4, h, Eh, residual))"
  by (simp add: update_noise_def inflate_covariance_def Let_def split: prod.splits)

lemma update_noise_inv:
  assumes "est_inv e"
  shows "\<exists>e5 res. update_noise e td tsd sd hyp =
            Inr (e5, (sd, 1), (E00 e5 * sd + E01 e5, E10 e5 * sd + E11 e5), res) \<and> est_inv e5"
proof -
  define e4 where "e4 = inflate_covariance e tsd hyp"
  have inv4: "est_inv e4" unfolding e4_def by (rule inflate_est_inv [OF assms])
  then have v: "\<not> var_noise e4 < 0" by (simp add: est_inv_def)
  show ?thesis
  proof (cases "hyp = NORMAL")
    case False
    then show ?thesis
      using inv4 unfolding update_noise_unfold e4_def [symmetric] Let_def by simp
  next
    case True
    show ?thesis
      unfolding update_noise_unfold e4_def [symmetric] Let_def
      using True v noise_estimate_inv [OF inv4]
      by (simp add: noise_estimate_E)
  qed
qed


lemma denom_ge:
  fixes a b c v f :: real
  assumes "0 \<le> a" "0 \<le> c" "b * b \<le> a * c" "1 \<le> v"
  shows "1 \<le> v + f * (a * f + b) + (b * f + c)"
proof -
  have "0 \<le> a * f * f + 2 * b * f * 1 + c * 1 * 1"
    using assms by (intro psd2) simp_all
  moreover have "f * (a * f + b) + (b * f + c) = a * f * f + 2 * b * f * 1 + c * 1 * 1"
    by (simp add: algebra_simps)
  ultimately show ?thesis using assms by linarith
qed

lemma kalman_denom_ge:
  assumes "est_inv e"
  shows "1 \<le> kalman_denom e (sd, 1) (E00 e * sd + E01 e, E10 e * sd + E11 e)"
  using assms denom_ge [of "E00 e" "E11 e" "E01 e" "var_noise e" sd]
  by (simp add: kalman_denom_def est_inv_def)

lemma gain_step:
  fixes a b c v f d :: real
  assumes "0 \<le> a" "0 \<le> c" "b * b \<le> a * c" "1 \<le> v"
    and d: "d = v + f * (a * f + b) + (b * f + c)"
  defines "u0 \<equiv> a * f + b" and "u1 \<equiv> b * f + c"
  shows "a * (1 - u0 / d * f) + b * (- (u0 / d) * 1) = a - u0 * u0 / d"
    and "b * (1 - u0 / d * f) + c * (- (u0 / d) * 1) = b - u0 * u1 / d"
    and "a * (- (u1 / d) * f) + b * (1 - u1 / d * 1) = b - u0 * u1 / d"
    and "b * (- (u1 / d) * f) + c * (1 - u1 / d * 1) = c - u1 * u1 / d"
    and "0 \<le> a - u0 * u0 / d"
    and "0 \<le> c - u1 * u1 / d"
    and "(b - u0 * u1 / d) * (b - u0 * u1 / d) \<le> (a - u0 * u0 / d) * (c - u1 * u1 / d)"
proof -
  have d1: "1 \<le> d" unfolding d using assms(1-4) by (rule denom_ge)
  then have dpos: "0 < d" and dnz: "d \<noteq> 0" by simp_all
  have det: "0 \<le> a * c - b * b" using assms by simp
  show "a * (1 - u0 / d * f) + b * (- (u0 / d) * 1) = a - u0 * u0 / d"
    using dnz by (simp add: u0_def field_simps)
  show "b * (1 - u0 / d * f) + c * (- (u0 / d) * 1) = b - u0 * u1 / d"
    using dnz by (simp add: u0_def u1_def field_simps)
  show "a * (- (u1 / d) * f) + b * (1 - u1 / d * 1) = b - u0 * u1 / d"
    using dnz by (simp add: u0_def u1_def field_simps)
  show "b * (- (u1 / d) * f) + c * (1 - u1 / d * 1) = c - u1 * u1 / d"
    using dnz by (simp add: u1_def field_simps)
  have ea: "a * d - u0 * u0 = a * v + (a * c - b * b)"
    by (simp add: d u0_def algebra_simps)
  have "0 \<le> a * v" using assms by simp
  with ea det have "u0 * u0 \<le> a * d" by linarith
  then have "u0 * u0 / d \<le> a" using dpos by (simp add: pos_divide_le_eq)
  then show "0 \<le> a - u0 * u0 / d" by simp
  have ec: "c * d - u1 * u1 = c * v + (a * c - b * b) * (f * f)"
    by (simp add: d u1_def algebra_simps)
  have "0 \<le> c * v" "0 \<le> (a * c - b * b) * (f * f)" using assms det by simp_all
  with ec have "u1 * u1 \<le> c * d" by linarith
  then have "u1 * u1 / d \<le> c" using dpos by (simp add: pos_divide_le_eq)
  then show "0 \<le> c - u1 * u1 / d" by simp
  have q: "a * (u1 * u1) + c * (u0 * u0) - 2 * b * (u0 * u1) = (a * c - b * b) * (d - v)"
    by (simp add: d u0_def u1_def algebra_simps)
  have "(a - u0 * u0 / d) * (c - u1 * u1 / d) - (b - u0 * u1 / d) * (b - u0 * u1 / d)
      = (a * c - b * b) - (a * (u1 * u1) + c * (u0 * u0) - 2 * b * (u0 * u1)) / d"
    using dnz by (simp add: field_simps)
  also have "\<dots> = (a * c - b * b) - (a * c - b * b) * (d - v) / d"
    by (simp only: q)
  also have "\<dots> = (a * c - b * b) * (v / d)"
    using dnz by (simp add: field_simps)
  finally have "(a - u0 * u0 / d) * (c - u1 * u1 / d) - (b - u0 * u1 / d) * (b - u0 * u1 / d)
      = (a * c - b * b) * (v / d)" .
  moreover have "0 \<le> (a * c - b * b) * (v / d)"
    using det dpos assms(4) by simp
  ultimately show "(b - u0 * u1 / d) * (b - u0 * u1 / d) \<le> (a - u0 * u0 / d) * (c - u1 * u1 / d)"
    by linarith
qed


lemma update_inv:
  assumes "est_inv e"
  shows "\<exists>e1. update e td tsd sd hyp now = Inr e1 \<and> est_inv e1"
proof -
  from update_noise_inv [OF assms, of td tsd sd hyp]
  obtain e5 res where un:
    "update_noise e td tsd sd hyp =
       Inr (e5, (sd, 1), (E00 e5 * sd + E01 e5, E10 e5 * sd + E11 e5), res)"
    and inv5: "est_inv e5"
    by blast
  define a where "a = E00 e5"
  define b where "b = E01 e5"
  define c where "c = E11 e5"
  define v where "v = var_noise e5"
  define d where "d = v + sd * (a * sd + b) + (b * sd + c)"
  have sym: "E10 e5 = b" using inv5 by (simp add: est_inv_def b_def)
  have pre: "0 \<le> a" "0 \<le> c" "b * b \<le> a * c" "1 \<le> v"
    using inv5 by (simp_all add: est_inv_def a_def b_def c_def v_def)
  have kd: "kalman_denom e5 (sd, 1) (E00 e5 * sd + E01 e5, E10 e5 * sd + E11 e5) = d"
    by (simp add: kalman_denom_def d_def a_def b_def c_def v_def sym [unfolded b_def])
  have dnz: "(d = 0) = False"
    using denom_ge [OF pre, of sd] by (simp add: d_def)
  note g = gain_step [OF pre d_def]
  define e1 where "e1 = e5\<lparr>E00 := a - (a * sd + b) * (a * sd + b) / d,
      E01 := b - (a * sd + b) * (b * sd + c) / d,
      E10 := b - (a * sd + b) * (b * sd + c) / d,
      E11 := c - (b * sd + c) * (b * sd + c) / d,
      previous_offset := est_offset e5,
      slope := slope e5 + (a * sd + b) / d * res,
      est_offset := est_offset e5 + (b * sd + c) / d * res\<rparr>"
  have "update e td tsd sd hyp now = Inr e1"
    apply (simp only: update_def un bind_err_def sum.case prod.case Let_def fst_conv snd_conv kd)
    apply (simp only: dnz if_False sym a_def [symmetric] b_def [symmetric] c_def [symmetric])
    apply (simp only: g(1-4) e1_def)
    done
  moreover have "est_inv e1"
    using inv5 g(5-7)
    by (simp add: est_inv_def e1_def)
  ultimately show ?thesis by blast
qed

lemma run_estimator_inv:
  assumes "est_inv e"
  shows "\<exists>e1. run_estimator e calls = Inr e1 \<and> est_inv e1"
  using assms
proof (induction calls arbitrary: e)
  case Nil
  then show ?case by simp
next
  case (Cons c calls)
  obtain td tsd sd hyp now where c: "c = (td, tsd, sd, hyp, now)"
    by (cases c)
  from update_inv [OF Cons.prems, of td tsd sd hyp now]
  obtain e1 where "update e td tsd sd hyp now = Inr e1" "est_inv e1"
    by blast
  with Cons.IH [of e1] c show ?case by simp
qed

lemma est_inv_init: "est_inv OveruseEstimator_init"
  by (simp add: est_inv_def OveruseEstimator_init_def)

lemma est_inv_psd:
  assumes "est_inv e"
  shows "E_symmetric e \<and> E_positive_semidefinite e"
proof -
  have "0 \<le> E_quadratic_form e x y" for x y
  proof -
    have "0 \<le> E00 e * x * x + 2 * E01 e * x * y + E11 e * y * y"
      using assms by (intro psd2) (simp_all add: est_inv_def)
    moreover have "E_quadratic_form e x y = E00 e * x * x + 2 * E01 e * x * y + E11 e * y * y"
      using assms by (simp add: E_quadratic_form_def est_inv_def algebra_simps)
    ultimately show ?thesis by simp
  qed
  with assms show ?thesis
    by (simp add: E_symmetric_def E_positive_semidefinite_def est_inv_def)
qed

text \<open>
  C4. After every sequence of calls of \<open>update\<close> on a new estimator, in exact real
  arithmetic, no call has raised, and the covariance is symmetric and positive
  semi-definite: its quadratic form is non-negative at every vector.
\<close>

theorem covariance_symmetric_psd:
  "\<exists>e. run_estimator OveruseEstimator_init calls = Inr e \<and>
       E_symmetric e \<and> E_positive_semidefinite e"
  using run_estimator_inv [OF est_inv_init, of calls] est_inv_psd
  by blast

theorem covariance_symmetric_psd_witness:
  "\<exists>e. run_estimator OveruseEstimator_init [(7, 5, 20, NORMAL, 1000), (4, 5, - 20, OVERUSING, 1005)]
         = Inr e \<and>
       E_symmetric e \<and> E_positive_semidefinite e"
  using covariance_symmetric_psd
    [of "[(7, 5, 20, NORMAL, 1000), (4, 5, - 20, OVERUSING, 1005)]"]
  by simp

text \<open>
  C7. After every sequence of calls of \<open>update\<close> on a new estimator, with any arguments
  and any hypothesis, no call has raised and \<open>var_noise\<close> is at least 1.
\<close>

theorem var_noise_at_least_one:
  "\<exists>e. run_estimator OveruseEstimator_init calls = Inr e \<and> 1 \<le> var_noise e"
  using run_estimator_inv [OF est_inv_init, of calls]
  by (auto simp: est_inv_def)

theorem var_noise_at_least_one_witness:
  "\<exists>e. run_estimator OveruseEstimator_init [(7, 5, 20, NORMAL, 1000), (4, 5, - 20, UNDERUSING, 1005)]
         = Inr e \<and> 1 \<le> var_noise e"
  using var_noise_at_least_one
    [of "[(7, 5, 20, NORMAL, 1000), (4, 5, - 20, UNDERUSING, 1005)]"]
  by simp

text \<open>
  C10. In every call of \<open>update\<close> on an estimator that earlier calls have produced from a
  new one, the denominator of the Kalman gain is at least 1, and the call returns without
  a division by zero (and without any other exception).
\<close>

theorem kalman_denom_at_least_one:
  "\<exists>e. run_estimator OveruseEstimator_init calls = Inr e \<and>
       (\<exists>e5 h Eh residual.
          update_noise e td tsd sd hyp = Inr (e5, h, Eh, residual) \<and>
          1 \<le> kalman_denom e5 h Eh) \<and>
       (\<exists>e1. update e td tsd sd hyp now = Inr e1)"
proof -
  from run_estimator_inv [OF est_inv_init, of calls]
  obtain e where e: "run_estimator OveruseEstimator_init calls = Inr e" "est_inv e"
    by blast
  from update_noise_inv [OF e(2), of td tsd sd hyp] kalman_denom_ge
  have "\<exists>e5 h Eh residual.
          update_noise e td tsd sd hyp = Inr (e5, h, Eh, residual) \<and>
          1 \<le> kalman_denom e5 h Eh"
    by blast
  moreover from update_inv [OF e(2), of td tsd sd hyp now]
  have "\<exists>e1. update e td tsd sd hyp now = Inr e1"
    by blast
  ultimately show ?thesis
    using e(1) by blast
qed

theorem kalman_denom_at_least_one_witness:
  "\<exists>e. run_estimator OveruseEstimator_init [(7, 5, 20, NORMAL, 1000)] = Inr e \<and>
       (\<exists>e5 h Eh residual.
          update_noise e 4 5 (- 20) OVERUSING = Inr (e5, h, Eh, residual) \<and>
          1 \<le> kalman_denom e5 h Eh) \<and>
       (\<exists>e1. update e 4 5 (- 20) OVERUSING 1005 = Inr e1)"
  using kalman_denom_at_least_one
    [of "[(7, 5, 20, NORMAL, 1000)]" 4 5 "- 20" OVERUSING 1005]
  by simp

section \<open>RateCounter: properties\<close>

lemma py_index_wf:
  assumes "counter_wf rc"
  shows "py_index (buckets rc) (origin_index rc) = Inr (nat (origin_index rc))"
  using assms by (simp add: counter_wf_def py_index_def Let_def)

lemma erase_old_loop_wf:
  assumes "counter_wf rc" and "origin_ms rc = Some orig"
  shows "\<exists>rc1. erase_old_loop new_origin_ms rc = Inr rc1 \<and> counter_wf rc1 \<and>
           origin_ms rc1 = Some (max orig new_origin_ms) \<and>
           window_size rc1 = window_size rc \<and> rc_scale rc1 = rc_scale rc"
  using assms
proof (induction new_origin_ms rc arbitrary: orig rule: erase_old_loop.induct)
  case (1 new_origin_ms rc)
  show ?case
  proof (cases "orig < new_origin_ms")
    case False
    with "1.prems" show ?thesis
      by (subst erase_old_loop.simps) (simp add: max_def)
  next
    case True
    define i where "i = nat (origin_index rc)"
    define rc2 where "rc2 =
      rc\<lparr>rc_total := \<lparr>bucket_count = bucket_count (rc_total rc) - bucket_count (buckets rc ! i),
                     bucket_value = bucket_value (rc_total rc) - bucket_value (buckets rc ! i)\<rparr>,
          buckets := (buckets rc)[i := (buckets rc ! i)\<lparr>bucket_count := 0, bucket_value := 0\<rparr>],
          origin_index := (origin_index rc + 1) mod window_size rc,
          origin_ms := Some (orig + 1)\<rparr>"
    have idx: "py_index (buckets rc) (origin_index rc) = Inr i"
      unfolding i_def by (rule py_index_wf [OF "1.prems"(1)])
    have ws: "window_size rc \<noteq> 0" using "1.prems"(1) by (simp add: counter_wf_def)
    have wf2: "counter_wf rc2" using "1.prems"(1) by (simp add: counter_wf_def rc2_def)
    have o2: "origin_ms rc2 = Some (orig + 1)" by (simp add: rc2_def)
    from "1.IH" [OF "1.prems"(2) True idx refl refl ws wf2 [unfolded rc2_def] o2 [unfolded rc2_def]]
    obtain rc1 where r: "erase_old_loop new_origin_ms rc2 = Inr rc1" "counter_wf rc1"
      "origin_ms rc1 = Some (max (orig + 1) new_origin_ms)"
      "window_size rc1 = window_size rc2" "rc_scale rc1 = rc_scale rc2"
      unfolding rc2_def [symmetric] by blast
    have "erase_old_loop new_origin_ms rc = erase_old_loop new_origin_ms rc2"
      by (subst erase_old_loop.simps) (simp add: "1.prems"(2) True idx ws rc2_def Let_def)
    with r True show ?thesis by (simp add: rc2_def max_def)
  qed
qed


text \<open>
  C8. On a well-formed counter, \<open>rate\<close> raises nothing. Not started, it returns none and
  leaves the counter alone. Started, it erases the old buckets, which moves the origin to
  \<open>max origin_ms (now_ms - window_size + 1)\<close>, and returns
  \<open>round (scale * total.value / active_window)\<close> with
  \<open>active_window = now_ms - origin_ms + 1\<close> for the moved origin exactly when the count of
  the total is positive and the active window is more than 1, and none otherwise.
\<close>

theorem rate_returns:
  assumes "counter_wf rc"
  shows "(origin_ms rc = None \<longrightarrow> rate rc now_ms = Inr (None, rc)) \<and>
         (\<forall>orig. origin_ms rc = Some orig \<longrightarrow>
            (\<exists>rc1. erase_old rc now_ms = Inr rc1 \<and>
               origin_ms rc1 = Some (max orig (now_ms - window_size rc + 1)) \<and>
               rc_scale rc1 = rc_scale rc \<and>
               rate rc now_ms =
                 Inr (if 0 < bucket_count (rc_total rc1) \<and>
                         1 < now_ms - max orig (now_ms - window_size rc + 1) + 1
                      then Some (py_round (of_int (rc_scale rc * bucket_value (rc_total rc1)) /
                                  of_int (now_ms - max orig (now_ms - window_size rc + 1) + 1)))
                      else None, rc1)))"
proof (intro conjI allI impI)
  assume "origin_ms rc = None"
  then show "rate rc now_ms = Inr (None, rc)"
    by (simp add: rate_def)
next
  fix orig
  assume orig: "origin_ms rc = Some orig"
  from erase_old_loop_wf [OF assms orig, of "now_ms - window_size rc + 1"]
  obtain rc1 where r: "erase_old rc now_ms = Inr rc1"
    "origin_ms rc1 = Some (max orig (now_ms - window_size rc + 1))"
    "rc_scale rc1 = rc_scale rc"
    by (auto simp: erase_old_def Let_def)
  then have "rate rc now_ms =
      Inr (if 0 < bucket_count (rc_total rc1) \<and>
              1 < now_ms - max orig (now_ms - window_size rc + 1) + 1
           then Some (py_round (of_int (rc_scale rc * bucket_value (rc_total rc1)) /
                       of_int (now_ms - max orig (now_ms - window_size rc + 1) + 1)))
           else None, rc1)"
    by (simp add: rate_def orig bind_err_def need_def Let_def)
  with r show "\<exists>rc1. erase_old rc now_ms = Inr rc1 \<and>
               origin_ms rc1 = Some (max orig (now_ms - window_size rc + 1)) \<and>
               rc_scale rc1 = rc_scale rc \<and>
               rate rc now_ms =
                 Inr (if 0 < bucket_count (rc_total rc1) \<and>
                         1 < now_ms - max orig (now_ms - window_size rc + 1) + 1
                      then Some (py_round (of_int (rc_scale rc * bucket_value (rc_total rc1)) /
                                  of_int (now_ms - max orig (now_ms - window_size rc + 1) + 1)))
                      else None, rc1)"
    by blast
qed

lemma wf_started: "counter_wf started_counter"
  by (simp add: counter_wf_def started_counter_def)

lemma wf_init: "counter_wf (RateCounter_init 1000 8000)"
  by (simp add: counter_wf_def RateCounter_init_def reset_def)

lemma erase_started: "erase_old started_counter 13 = Inr (started_counter\<lparr>
   rc_total := \<lparr>bucket_count = 1, bucket_value = 50\<rparr>,
   buckets := [\<lparr>bucket_count = 0, bucket_value = 0\<rparr>,
                 \<lparr>bucket_count = 1, bucket_value = 50\<rparr>,
                 \<lparr>bucket_count = 0, bucket_value = 0\<rparr>],
   origin_index := 1, origin_ms := Some 11\<rparr>)"
  by (simp add: erase_old_def started_counter_def erase_old_loop.simps py_index_def Let_def)

theorem rate_returns_witness:
  "counter_wf (RateCounter_init 1000 8000) \<and> origin_ms (RateCounter_init 1000 8000) = None \<and>
   rate (RateCounter_init 1000 8000) 13 = Inr (None, RateCounter_init 1000 8000) \<and>
   counter_wf started_counter \<and> origin_ms started_counter = Some 10 \<and>
   (\<exists>rc1. rate started_counter 13 = Inr (Some 133333, rc1))"
proof -
  have o: "origin_ms (RateCounter_init 1000 8000) = None"
    by (simp add: RateCounter_init_def reset_def)
  have s: "origin_ms started_counter = Some 10"
    by (simp add: started_counter_def)
  from rate_returns [OF wf_init, of 13] o
  have 1: "rate (RateCounter_init 1000 8000) 13 = Inr (None, RateCounter_init 1000 8000)"
    by blast
  from rate_returns [OF wf_started, of 13] s
  obtain rc1 where r: "erase_old started_counter 13 = Inr rc1"
    "rate started_counter 13 =
       Inr (if 0 < bucket_count (rc_total rc1) \<and>
               1 < 13 - max 10 (13 - window_size started_counter + 1) + 1
            then Some (py_round (of_int (rc_scale started_counter * bucket_value (rc_total rc1)) /
                        of_int (13 - max 10 (13 - window_size started_counter + 1) + 1)))
            else None, rc1)"
    by blast
  from r(1) have t: "rc_total rc1 = \<lparr>bucket_count = 1, bucket_value = 50\<rparr>"
    by (auto simp: erase_started)
  have "rate started_counter 13 = Inr (Some 133333, rc1)"
    unfolding r(2) t by (simp add: started_counter_def py_round_def Let_def)
  with 1 o s wf_init wf_started show ?thesis by blast
qed

end
